theory Spec2Isabelle
  imports Main "HOL-Library.Word"
begin

unbundle bit_operations_syntax

section \<open>Flags (src/src/flags.h)\<close>

text \<open>
  \<^verbatim>\<open>template <typename Enum, std::size_t _Nb = sizeof(Enum) * 8> class Flags\<close>
  holds one member, \<^verbatim>\<open>UnderlyingT mFlags\<close>. The underlying type of the enumeration is
  the type parameter \<open>'u\<close>; every operation below instantiates it with a machine word
  \<open>'a word\<close>, whose length is the width of \<^verbatim>\<open>UnderlyingT\<close>. The template
  parameter \<^verbatim>\<open>_Nb\<close> is a compile-time constant of the class; the one member
  function that reads it, \<^verbatim>\<open>operator~\<close>, and its callers take it as the argument
  \<open>Nb\<close>.

  A scoped enumeration has a fixed underlying type and can hold every value of it
  (\<^verbatim>\<open>static_cast<Enum>(v)\<close>), named by an enumerator or not, so a value of the
  enumeration is its underlying value in a wrapper, and \<^verbatim>\<open>toUnderlying\<close> (the
  \<^verbatim>\<open>static_cast<UnderlyingT>(flag)\<close> of the source) unwraps it.
\<close>

datatype 'u enum_type = Enum (toUnderlying: 'u)

record 'u Flags =
  mFlags :: 'u

text \<open>The constructors: \<^verbatim>\<open>Flags()\<close>, \<^verbatim>\<open>Flags(Enum flag)\<close>,
  \<^verbatim>\<open>Flags(std::initializer_list<Enum>)\<close> (a loop of \<^verbatim>\<open>mFlags |= toUnderlying(flag)\<close>
  starting from 0) and the private \<^verbatim>\<open>Flags(UnderlyingT flags)\<close>.\<close>

definition Flags_default :: "'a::len word Flags" where
  "Flags_default = \<lparr>mFlags = 0\<rparr>"

definition Flags_flag :: "'a::len word enum_type \<Rightarrow> 'a word Flags" where
  "Flags_flag flag = \<lparr>mFlags = toUnderlying flag\<rparr>"

definition Flags_list :: "'a::len word enum_type list \<Rightarrow> 'a word Flags" where
  "Flags_list flags = \<lparr>mFlags = fold (\<lambda>flag m. m OR toUnderlying flag) flags 0\<rparr>"

definition Flags_underlying :: "'a::len word \<Rightarrow> 'a word Flags" where
  "Flags_underlying flags = \<lparr>mFlags = flags\<rparr>"

definition fromUnderlyingType :: "'a::len word \<Rightarrow> 'a word Flags" where
  "fromUnderlyingType flags = Flags_underlying flags"

definition toUnderlyingType :: "'a::len word Flags \<Rightarrow> 'a word" where
  "toUnderlyingType a = mFlags a"

definition test :: "'a::len word Flags \<Rightarrow> 'a word enum_type \<Rightarrow> bool" where
  "test a flag = (mFlags a AND toUnderlying flag = toUnderlying flag)"

definition operator_bool :: "'a::len word Flags \<Rightarrow> bool" where
  "operator_bool a = (mFlags a \<noteq> 0)"

text \<open>The binary operators, in their set-set, set-enum and enum-set forms.\<close>

definition operator_bitor :: "'a::len word Flags \<Rightarrow> 'a word Flags \<Rightarrow> 'a word Flags" where
  "operator_bitor lhs rhs = Flags_underlying (mFlags lhs OR mFlags rhs)"

definition operator_bitor_FE :: "'a::len word Flags \<Rightarrow> 'a word enum_type \<Rightarrow> 'a word Flags" where
  "operator_bitor_FE lhs rhs = Flags_underlying (mFlags lhs OR toUnderlying rhs)"

definition operator_bitor_EF :: "'a::len word enum_type \<Rightarrow> 'a word Flags \<Rightarrow> 'a word Flags" where
  "operator_bitor_EF lhs rhs = Flags_underlying (toUnderlying lhs OR mFlags rhs)"

definition operator_bitand :: "'a::len word Flags \<Rightarrow> 'a word Flags \<Rightarrow> 'a word Flags" where
  "operator_bitand lhs rhs = Flags_underlying (mFlags lhs AND mFlags rhs)"

definition operator_bitand_FE :: "'a::len word Flags \<Rightarrow> 'a word enum_type \<Rightarrow> 'a word Flags" where
  "operator_bitand_FE lhs rhs = Flags_underlying (mFlags lhs AND toUnderlying rhs)"

definition operator_bitand_EF :: "'a::len word enum_type \<Rightarrow> 'a word Flags \<Rightarrow> 'a word Flags" where
  "operator_bitand_EF lhs rhs = Flags_underlying (toUnderlying lhs AND mFlags rhs)"

definition operator_xor :: "'a::len word Flags \<Rightarrow> 'a word Flags \<Rightarrow> 'a word Flags" where
  "operator_xor lhs rhs = Flags_underlying (mFlags lhs XOR mFlags rhs)"

definition operator_xor_FE :: "'a::len word Flags \<Rightarrow> 'a word enum_type \<Rightarrow> 'a word Flags" where
  "operator_xor_FE lhs rhs = Flags_underlying (mFlags lhs XOR toUnderlying rhs)"

definition operator_xor_EF :: "'a::len word enum_type \<Rightarrow> 'a word Flags \<Rightarrow> 'a word Flags" where
  "operator_xor_EF lhs rhs = Flags_underlying (toUnderlying lhs XOR mFlags rhs)"

text \<open>The compound assignments mutate \<^verbatim>\<open>*this\<close> and return it: the model returns the
  updated object.\<close>

definition operator_or_eq :: "'a::len word Flags \<Rightarrow> 'a word Flags \<Rightarrow> 'a word Flags" where
  "operator_or_eq this other = this\<lparr>mFlags := mFlags this OR mFlags other\<rparr>"

definition operator_or_eq_E :: "'a::len word Flags \<Rightarrow> 'a word enum_type \<Rightarrow> 'a word Flags" where
  "operator_or_eq_E this flag = this\<lparr>mFlags := mFlags this OR toUnderlying flag\<rparr>"

definition operator_and_eq :: "'a::len word Flags \<Rightarrow> 'a word Flags \<Rightarrow> 'a word Flags" where
  "operator_and_eq this other = this\<lparr>mFlags := mFlags this AND mFlags other\<rparr>"

definition operator_and_eq_E :: "'a::len word Flags \<Rightarrow> 'a word enum_type \<Rightarrow> 'a word Flags" where
  "operator_and_eq_E this flag = this\<lparr>mFlags := mFlags this AND toUnderlying flag\<rparr>"

definition operator_xor_eq :: "'a::len word Flags \<Rightarrow> 'a word Flags \<Rightarrow> 'a word Flags" where
  "operator_xor_eq this other = this\<lparr>mFlags := mFlags this XOR mFlags other\<rparr>"

definition operator_xor_eq_E :: "'a::len word Flags \<Rightarrow> 'a word enum_type \<Rightarrow> 'a word Flags" where
  "operator_xor_eq_E this flag = this\<lparr>mFlags := mFlags this XOR toUnderlying flag\<rparr>"

definition operator_eq :: "'a::len word Flags \<Rightarrow> 'a word Flags \<Rightarrow> bool" where
  "operator_eq lhs rhs = (mFlags lhs = mFlags rhs)"

definition operator_not_eq :: "'a::len word Flags \<Rightarrow> 'a word Flags \<Rightarrow> bool" where
  "operator_not_eq lhs rhs = (\<not> operator_eq lhs rhs)"

subsection \<open>The complement\<close>

text \<open>
  \<^verbatim>\<open>return Flags(~mFlags & (~std::bitset<_Nb>()).to_ulong());\<close>

  A \<^verbatim>\<open>std::bitset<_Nb>\<close> is modelled by the number its \<open>Nb\<close> bits spell. The default
  constructor gives 0, \<^verbatim>\<open>operator~\<close> flips all \<open>Nb\<close> bits, and \<^verbatim>\<open>to_ulong\<close>
  throws \<^verbatim>\<open>std::overflow_error\<close> when the value does not fit an
  \<^verbatim>\<open>unsigned long\<close>, taken as 64 bits wide (LP64).

  The operand \<^verbatim>\<open>~mFlags\<close> is converted to \<^verbatim>\<open>unsigned long\<close> for the
  \<^verbatim>\<open>&\<close>, and the result is narrowed back to \<^verbatim>\<open>UnderlyingT\<close> by the private
  constructor. The widening is the zero extension of an unsigned underlying type of the
  rank of \<^verbatim>\<open>unsigned int\<close> or above, which is what every enumeration of the repository
  has; the narrowing keeps the low bits.
\<close>

datatype exception = overflow_error

definition bitset_default :: "nat \<Rightarrow> nat" where
  "bitset_default Nb = 0"

definition bitset_flip :: "nat \<Rightarrow> nat \<Rightarrow> nat" where
  "bitset_flip Nb v = 2 ^ Nb - 1 - v"

definition to_ulong :: "nat \<Rightarrow> exception + 64 word" where
  "to_ulong v = (if v < 2 ^ 64 then Inr (word_of_nat v) else Inl overflow_error)"

definition operator_compl :: "nat \<Rightarrow> 'a::len word Flags \<Rightarrow> exception + 'a word Flags" where
  "operator_compl Nb this =
     (case to_ulong (bitset_flip Nb (bitset_default Nb)) of
        Inl ex \<Rightarrow> Inl ex
      | Inr ul \<Rightarrow> Inr (Flags_underlying (ucast ((ucast (NOT (mFlags this)) :: 64 word) AND ul))))"

subsection \<open>set and reset\<close>

text \<open>
  \<^verbatim>\<open>set(flag, value)\<close> is \<^verbatim>\<open>value ? (*this |= flag) : (*this &= ~Flags(flag))\<close>,
  \<^verbatim>\<open>reset(flag)\<close> is \<^verbatim>\<open>*this &= ~Flags(flag)\<close>, and \<^verbatim>\<open>reset()\<close> stores 0.
  An exception of the complement leaves the call without a result.
\<close>

definition set_flag :: "nat \<Rightarrow> 'a::len word Flags \<Rightarrow> 'a word enum_type \<Rightarrow> bool
    \<Rightarrow> exception + 'a word Flags" where
  "set_flag Nb this flag value =
     (if value then Inr (operator_or_eq_E this flag)
      else (case operator_compl Nb (Flags_flag flag) of
              Inl ex \<Rightarrow> Inl ex
            | Inr c \<Rightarrow> Inr (operator_and_eq this c)))"

definition reset :: "nat \<Rightarrow> 'a::len word Flags \<Rightarrow> 'a word enum_type \<Rightarrow> exception + 'a word Flags" where
  "reset Nb this flag =
     (case operator_compl Nb (Flags_flag flag) of
        Inl ex \<Rightarrow> Inl ex
      | Inr c \<Rightarrow> Inr (operator_and_eq this c))"

definition reset_all :: "'a::len word Flags \<Rightarrow> 'a word Flags" where
  "reset_all this = this\<lparr>mFlags := 0\<rparr>"

subsection \<open>The enumerations of the repository\<close>

text \<open>
  \<^verbatim>\<open>enum class TestFlag : unsigned int { A = 1 << 0, B = 1 << 1, C = 1 << 2 }\<close> with
  \<^verbatim>\<open>using TestFlags = GpgME::Flags<TestFlag, 3>\<close> (tests/t-flags.cpp), and
  \<^verbatim>\<open>enum class DeletionFlag : unsigned int { AllowSecret = 1 << 0, Force = 1 << 1 }\<close>
  with \<^verbatim>\<open>using DeletionFlags = Flags<DeletionFlag>\<close> (src/global.h), whose
  \<^verbatim>\<open>_Nb\<close> is the default \<^verbatim>\<open>sizeof(Enum) * 8\<close>, 32.
\<close>

definition TestFlag_A :: "32 word enum_type" where
  "TestFlag_A = Enum (push_bit 0 1)"

definition TestFlag_B :: "32 word enum_type" where
  "TestFlag_B = Enum (push_bit 1 1)"

definition TestFlag_C :: "32 word enum_type" where
  "TestFlag_C = Enum (push_bit 2 1)"

definition TestFlags_Nb :: nat where
  "TestFlags_Nb = 3"

definition DeletionFlag_AllowSecret :: "32 word enum_type" where
  "DeletionFlag_AllowSecret = Enum (push_bit 0 1)"

definition DeletionFlag_Force :: "32 word enum_type" where
  "DeletionFlag_Force = Enum (push_bit 1 1)"

definition DeletionFlags_Nb :: nat where
  "DeletionFlags_Nb = 4 * 8"

section \<open>Error (src/src/error.cpp)\<close>

subsection \<open>The error values of the external collaborator\<close>

text \<open>
  Modelled from the spec: \<^verbatim>\<open>gpgme_err_code\<close>, \<^verbatim>\<open>gpgme_err_source\<close>,
  \<^verbatim>\<open>gpgme_err_make\<close> and the enumerators \<^verbatim>\<open>GPG_ERR_NO_ERROR\<close>,
  \<^verbatim>\<open>GPG_ERR_CANCELED\<close> and \<^verbatim>\<open>GPG_ERR_FULLY_CANCELED\<close> belong to the external
  collaborator (libgpg-error, through \<^verbatim>\<open>gpgme.h\<close>); none of them is defined in this
  repository. The spec fixes the shape of the encoding (one unsigned integer, the source
  in the high-order bits, the code in the low-order bits, three reserved code values)
  and leaves the exact split to the collaborator. The numbers below are those of the
  collaborator's public header \<^verbatim>\<open>gpg-error.h\<close>: the code is the low 16 bits
  (\<^verbatim>\<open>GPG_ERR_CODE_DIM\<close> = 65536), the source is 7 bits
  (\<^verbatim>\<open>GPG_ERR_SOURCE_DIM\<close> = 128) shifted by 24, and
  \<^verbatim>\<open>
  gpg_err_make (source, code) =
    code == GPG_ERR_NO_ERROR ? GPG_ERR_NO_ERROR
      : (((source & GPG_ERR_SOURCE_MASK) << GPG_ERR_SOURCE_SHIFT) | (code & GPG_ERR_CODE_MASK))
  gpg_err_code (err)   = err & GPG_ERR_CODE_MASK
  gpg_err_source (err) = (err >> GPG_ERR_SOURCE_SHIFT) & GPG_ERR_SOURCE_MASK
  \<close>
  The \<^verbatim>\<open>gpgme_\<close> functions are inline wrappers of the \<^verbatim>\<open>gpg_\<close> ones.
\<close>

type_synonym gpgme_error_t = "32 word"

definition GPG_ERR_NO_ERROR :: "32 word" where
  "GPG_ERR_NO_ERROR = 0"

definition GPG_ERR_CANCELED :: "32 word" where
  "GPG_ERR_CANCELED = 99"

definition GPG_ERR_FULLY_CANCELED :: "32 word" where
  "GPG_ERR_FULLY_CANCELED = 198"

definition GPG_ERR_CODE_MASK :: "32 word" where
  "GPG_ERR_CODE_MASK = 65536 - 1"

definition GPG_ERR_SOURCE_MASK :: "32 word" where
  "GPG_ERR_SOURCE_MASK = 128 - 1"

definition GPG_ERR_SOURCE_SHIFT :: nat where
  "GPG_ERR_SOURCE_SHIFT = 24"

definition gpgme_err_make :: "32 word \<Rightarrow> 32 word \<Rightarrow> gpgme_error_t" where
  "gpgme_err_make source code =
     (if code = GPG_ERR_NO_ERROR then GPG_ERR_NO_ERROR
      else push_bit GPG_ERR_SOURCE_SHIFT (source AND GPG_ERR_SOURCE_MASK)
             OR (code AND GPG_ERR_CODE_MASK))"

definition gpgme_err_code :: "gpgme_error_t \<Rightarrow> 32 word" where
  "gpgme_err_code err = err AND GPG_ERR_CODE_MASK"

definition gpgme_err_source :: "gpgme_error_t \<Rightarrow> 32 word" where
  "gpgme_err_source err = drop_bit GPG_ERR_SOURCE_SHIFT err AND GPG_ERR_SOURCE_MASK"

subsection \<open>C strings\<close>

text \<open>
  A \<^verbatim>\<open>char\<close> array is the list of its bytes; the C string stored in it is the bytes
  before the first NUL.
\<close>

definition NUL :: char where
  "NUL = CHR 0x00"

definition c_str :: "char list \<Rightarrow> string" where
  "c_str buf = takeWhile (\<lambda>c. c \<noteq> NUL) buf"

subsection \<open>The class\<close>

text \<open>
  The class (declared in \<^verbatim>\<open>error.h\<close>) has the members
  \<^verbatim>\<open>unsigned int mErr\<close> and \<^verbatim>\<open>mutable std::string mMessage\<close>; its constructor
  \<^verbatim>\<open>Error(unsigned int e)\<close> stores \<open>e\<close> and the empty message.
\<close>

record Error =
  mErr :: "32 word"
  mMessage :: string

definition Error_ctor :: "32 word \<Rightarrow> Error" where
  "Error_ctor e = \<lparr>mErr = e, mMessage = []\<rparr>"

text \<open>\<^verbatim>\<open>code()\<close> and \<^verbatim>\<open>sourceID()\<close> return \<^verbatim>\<open>int\<close>: the conversion of the
  collaborator's unsigned value to a 32-bit signed integer.\<close>

definition code :: "Error \<Rightarrow> int" where
  "code this = sint (gpgme_err_code (mErr this))"

definition sourceID :: "Error \<Rightarrow> int" where
  "sourceID this = sint (gpgme_err_source (mErr this))"

definition isSuccess :: "Error \<Rightarrow> bool" where
  "isSuccess this = (code this = uint GPG_ERR_NO_ERROR)"

definition isCanceled :: "Error \<Rightarrow> bool" where
  "isCanceled this =
     (code this = uint GPG_ERR_CANCELED \<or> code this = uint GPG_ERR_FULLY_CANCELED)"

definition isError :: "Error \<Rightarrow> bool" where
  "isError this = (\<not> isSuccess this \<and> \<not> isCanceled this)"

definition fromCode :: "32 word \<Rightarrow> 32 word \<Rightarrow> Error" where
  "fromCode err src = Error_ctor (gpgme_err_make src err)"

subsection \<open>Rendering the message\<close>

text \<open>
  \<^verbatim>\<open>
  static void format_error(gpgme_error_t err, std::string &str)
  {
      char buffer[ 1024 ];
      gpgme_strerror_r(err, buffer, sizeof buffer);
      buffer[ sizeof buffer - 1 ] = '\0';
      str = buffer;
  }
  \<close>
  \<^verbatim>\<open>gpgme_strerror_r\<close> is the collaborator's: it is the parameter \<open>strerror_r\<close>,
  which gets the error value, the array and its size and returns the array as the call
  leaves it. The array is not initialised: its bytes before the call are whatever the
  stack holds, the parameter \<open>stack\<close>. \<open>format_error_buffer\<close> is the array as the
  assignment to \<open>str\<close> reads it, and \<open>format_error\<close> is the value \<open>str\<close> gets.
\<close>

definition buffer_size :: nat where
  "buffer_size = 1024"

definition uninitialised :: "(nat \<Rightarrow> char) \<Rightarrow> char list" where
  "uninitialised stack = map stack [0..<buffer_size]"

definition format_error_buffer :: "(gpgme_error_t \<Rightarrow> char list \<Rightarrow> nat \<Rightarrow> char list)
    \<Rightarrow> (nat \<Rightarrow> char) \<Rightarrow> gpgme_error_t \<Rightarrow> char list" where
  "format_error_buffer strerror_r stack err =
     (let buffer = uninitialised stack;
          buffer = strerror_r err buffer buffer_size
      in buffer[buffer_size - 1 := NUL])"

definition format_error :: "(gpgme_error_t \<Rightarrow> char list \<Rightarrow> nat \<Rightarrow> char list)
    \<Rightarrow> (nat \<Rightarrow> char) \<Rightarrow> gpgme_error_t \<Rightarrow> string" where
  "format_error strerror_r stack err = c_str (format_error_buffer strerror_r stack err)"

text \<open>\<^verbatim>\<open>asString()\<close> fills the mutable member on the first call and returns its
  text: the model returns the text and the object. \<^verbatim>\<open>asStdString()\<close> renders into
  a local string every time.\<close>

definition asString :: "(gpgme_error_t \<Rightarrow> char list \<Rightarrow> nat \<Rightarrow> char list)
    \<Rightarrow> (nat \<Rightarrow> char) \<Rightarrow> Error \<Rightarrow> string \<times> Error" where
  "asString strerror_r stack this =
     (let this' = (if mMessage this = []
                   then this\<lparr>mMessage := format_error strerror_r stack (mErr this)\<rparr>
                   else this)
      in (mMessage this', this'))"

definition asStdString :: "(gpgme_error_t \<Rightarrow> char list \<Rightarrow> nat \<Rightarrow> char list)
    \<Rightarrow> (nat \<Rightarrow> char) \<Rightarrow> Error \<Rightarrow> string" where
  "asStdString strerror_r stack this = format_error strerror_r stack (mErr this)"

text \<open>
  Modelled from the spec: what \<^verbatim>\<open>gpgme_strerror_r (err, buf, buflen)\<close> does is not
  in this repository. By the specification the description of the code is rendered
  into the bounded buffer and truncated, not overflowed, when it is longer. The
  descriptions are the collaborator's table, the parameter \<open>descr\<close>. The function
  copies the description and its terminator, at most \<open>buflen\<close> bytes of them, to the
  start of the buffer, leaves the rest of the buffer as it was and, for a buffer that is
  not empty, stores NUL in its last byte (as libgpg-error's \<^verbatim>\<open>strerror_r\<close> does).
\<close>

definition gpgme_strerror_r :: "(gpgme_error_t \<Rightarrow> string) \<Rightarrow> gpgme_error_t \<Rightarrow> char list \<Rightarrow> nat
    \<Rightarrow> char list" where
  "gpgme_strerror_r descr err buf buflen =
     (let errstr = c_str (descr err) @ [NUL];
          cpy_len = min (length errstr) buflen;
          buf' = take cpy_len errstr @ drop cpy_len buf
      in if buflen \<noteq> 0 then buf'[buflen - 1 := NUL] else buf')"

section \<open>split_into_string_views (src/src/util.cpp)\<close>

text \<open>
  The argument \<^verbatim>\<open>const char *s\<close> is the null pointer (\<open>None\<close>) or points into a
  NUL-terminated array: \<open>Some s\<close>, where \<open>s\<close> lists the bytes from the pointer up to
  the array's final NUL, that NUL left out. Advancing the pointer drops bytes from the
  front. \<^verbatim>\<open>strlen\<close> and \<^verbatim>\<open>strchr\<close> stop at the first NUL, and \<^verbatim>\<open>strchr\<close>
  counts that NUL as part of the string, so it finds the delimiter NUL there. It returns
  the offset of the byte found, \<open>None\<close> for the null pointer.
\<close>

fun strlen :: "string \<Rightarrow> nat" where
  "strlen [] = 0"
| "strlen (c # cs) = (if c = NUL then 0 else Suc (strlen cs))"

fun strchr :: "string \<Rightarrow> char \<Rightarrow> nat option" where
  "strchr [] ch = (if ch = NUL then Some 0 else None)"
| "strchr (c # cs) ch =
     (if c = ch then Some 0
      else if c = NUL then None
      else map_option Suc (strchr cs ch))"

text \<open>
  \<^verbatim>\<open>
  while (const char *segment_end = std::strchr(s, delimiter)) {
      if (const auto segment_size = segment_end - s) {
          result.emplace_back(s, segment_size);
      }
      s = segment_end + 1;
  };
  if (const auto segment_size = std::strlen(s)) {
      result.emplace_back(s, segment_size);
  }
  return result;
  \<close>
  A view \<^verbatim>\<open>string_view(s, n)\<close> is the \<open>n\<close> bytes at \<open>s\<close>. When
  \<^verbatim>\<open>segment_end\<close> is the array's final NUL (which only the delimiter NUL finds),
  \<^verbatim>\<open>segment_end + 1\<close> is past the array and the next \<^verbatim>\<open>strchr\<close> reads outside
  it: the behaviour is undefined, and the model stops with a fault.
\<close>

datatype fault = read_past_the_array

function split_loop :: "string \<Rightarrow> char \<Rightarrow> string list \<Rightarrow> fault + string list" where
  "split_loop s delimiter result =
     (case strchr s delimiter of
        Some segment_size \<Rightarrow>
          (let result' = (if segment_size \<noteq> 0 then result @ [take segment_size s] else result)
           in if segment_size < length s
              then split_loop (drop (Suc segment_size) s) delimiter result'
              else Inl read_past_the_array)
      | None \<Rightarrow>
          Inr (if strlen s \<noteq> 0 then result @ [take (strlen s) s] else result))"
  by pat_completeness auto
termination
  by (relation "measure (\<lambda>(s, delimiter, result). length s)") auto

declare split_loop.simps [simp del]

definition split_into_string_views :: "string option \<Rightarrow> char \<Rightarrow> fault + string list" where
  "split_into_string_views s delimiter =
     (case s of
        None \<Rightarrow> Inr []
      | Some s' \<Rightarrow> split_loop s' delimiter [])"

subsection \<open>The splitter as the specification words it\<close>

text \<open>
  The specification: split on each occurrence of the delimiter, scanning left to right;
  omit every zero-length segment; the null text gives the empty sequence.
  \<open>segments\<close> lists all the segments of a text, the empty ones included, and
  \<open>spec_split\<close> drops the empty ones.
\<close>

fun segments :: "char \<Rightarrow> string \<Rightarrow> string list" where
  "segments d [] = [[]]"
| "segments d (c # cs) =
     (if c = d then [] # segments d cs
      else (case segments d cs of
              [] \<Rightarrow> [[c]]
            | seg # rest \<Rightarrow> (c # seg) # rest))"

definition spec_split :: "string option \<Rightarrow> char \<Rightarrow> string list" where
  "spec_split text d =
     (case text of
        None \<Rightarrow> []
      | Some s \<Rightarrow> filter (\<lambda>seg. seg \<noteq> []) (segments d (c_str s)))"

section \<open>Properties of Flags\<close>

lemma all_ones_fits:
  assumes "Nb \<le> 64"
  shows "(2::nat) ^ Nb - 1 < 2 ^ 64"
proof -
  from assms have "(2::nat) ^ Nb \<le> 2 ^ 64"
    by (rule power_increasing) simp
  moreover have "0 < (2::nat) ^ Nb"
    by simp
  ultimately show ?thesis
    by linarith
qed

lemma all_ones_overflows:
  assumes "\<not> Nb \<le> 64"
  shows "\<not> (2::nat) ^ Nb - 1 < 2 ^ 64"
proof -
  from assms have "64 < Nb"
    by simp
  then have "(2::nat) ^ 64 < 2 ^ Nb"
    by (rule power_strict_increasing) simp
  then show ?thesis
    by linarith
qed

lemma all_ones_word: "(word_of_nat (2 ^ Nb - 1) :: 64 word) = mask Nb"
  by (simp add: mask_eq_exp_minus_1)

lemma to_ulong_all_ones:
  "to_ulong (bitset_flip Nb (bitset_default Nb)) =
     (if Nb \<le> 64 then Inr (mask Nb) else Inl overflow_error)"
  unfolding to_ulong_def bitset_flip_def bitset_default_def
  using all_ones_fits [of Nb] all_ones_overflows [of Nb] all_ones_word [of Nb]
  by (simp del: power_numeral)

lemma operator_compl_eq:
  "operator_compl Nb a =
     (if Nb \<le> 64 then Inr \<lparr>mFlags = NOT (mFlags a) AND mask Nb\<rparr> else Inl overflow_error)"
proof (cases "Nb \<le> 64")
  case True
  have "(ucast ((ucast (NOT (mFlags a)) :: 64 word) AND mask Nb) :: 'a word)
          = NOT (mFlags a) AND mask Nb"
    using True by (intro bit_eqI) (auto simp: bit_simps)
  then show ?thesis
    using True by (simp add: operator_compl_def to_ulong_all_ones Flags_underlying_def)
next
  case False
  then show ?thesis
    by (simp add: operator_compl_def to_ulong_all_ones)
qed

lemma unat_less_exp_iff_take_bit:
  "unat (w :: 'a::len word) < 2 ^ n \<longleftrightarrow> take_bit n w = w"
proof -
  have "unat w < 2 ^ n \<longleftrightarrow> take_bit n (unat w) = unat w"
    by (simp add: take_bit_nat_eq_self_iff)
  also have "\<dots> \<longleftrightarrow> unat (take_bit n w) = unat w"
    by (simp add: unsigned_take_bit_eq)
  also have "\<dots> \<longleftrightarrow> take_bit n w = w"
    by (simp add: word_unat_eq_iff)
  finally show ?thesis .
qed

lemma unat_less_exp_iff_bits:
  "unat (w :: 'a::len word) < 2 ^ n \<longleftrightarrow> (\<forall>i\<ge>n. \<not> bit w i)"
  unfolding unat_less_exp_iff_take_bit
  by (auto simp: bit_eq_iff bit_take_bit_iff not_le dest: bit_imp_le_length)

lemma unat_less_exp_iff_mask:
  "unat (w :: 'a::len word) < 2 ^ n \<longleftrightarrow> w AND mask n = w"
  by (simp add: unat_less_exp_iff_take_bit take_bit_eq_mask)

lemma mask_full_width:
  assumes "LENGTH('a) \<le> n"
  shows "(w :: 'a::len word) AND mask n = w"
  using assms by (intro bit_eqI) (simp add: bit_and_iff bit_mask_iff)

lemma reset_eq:
  "reset Nb a e =
     (if Nb \<le> 64 then Inr (a\<lparr>mFlags := mFlags a AND (NOT (toUnderlying e) AND mask Nb)\<rparr>)
      else Inl overflow_error)"
  by (simp add: reset_def operator_compl_eq operator_and_eq_def Flags_flag_def)

lemma set_flag_False: "set_flag Nb a e False = reset Nb a e"
  by (simp add: set_flag_def reset_def)

lemma test_bits: "test a e \<longleftrightarrow> (\<forall>i. bit (toUnderlying e) i \<longrightarrow> bit (mFlags a) i)"
  unfolding test_def
  by (auto simp: bit_eq_iff bit_and_iff dest: bit_imp_le_length)

lemma TestFlag_values:
  "toUnderlying TestFlag_A = 1" "toUnderlying TestFlag_B = 2" "toUnderlying TestFlag_C = 4"
  by (simp_all add: TestFlag_A_def TestFlag_B_def TestFlag_C_def)

lemma mask_3: "(mask 3 :: 32 word) = 7"
  by (simp add: mask_eq_exp_minus_1)

subsection \<open>The repository's tests of Flags, on the model\<close>

text \<open>The assertions of tests/t-flags.cpp, with \<^verbatim>\<open>TestFlags = Flags<TestFlag, 3>\<close>.\<close>

lemmas TestFlags_simps =
  TestFlags_Nb_def TestFlag_values mask_3 Flags_default_def Flags_flag_def Flags_list_def
  Flags_underlying_def fromUnderlyingType_def toUnderlyingType_def test_def operator_bool_def
  operator_eq_def operator_not_eq_def

lemma t_flags_test_construction:
  "toUnderlyingType (Flags_default :: 32 word Flags) = 0"
  "\<not> operator_bool (Flags_default :: 32 word Flags)"
  "\<not> test Flags_default TestFlag_A"
  "toUnderlyingType (Flags_list [TestFlag_A]) = 1"
  "test (Flags_list [TestFlag_A]) TestFlag_A"
  "\<not> test (Flags_list [TestFlag_A]) TestFlag_B"
  "toUnderlyingType (Flags_list [TestFlag_B, TestFlag_C]) = 6"
  "\<not> test (Flags_list [TestFlag_B, TestFlag_C]) TestFlag_A"
  "test (Flags_list [TestFlag_B, TestFlag_C]) TestFlag_B"
  "test (Flags_list [TestFlag_B, TestFlag_C]) TestFlag_C"
  "toUnderlyingType (fromUnderlyingType (3 :: 32 word)) = 3"
  "test (fromUnderlyingType 3) TestFlag_A"
  "test (fromUnderlyingType 3) TestFlag_B"
  "\<not> test (fromUnderlyingType 3) TestFlag_C"
  by (simp_all add: TestFlags_simps)

lemma t_flags_test_set_reset:
  "set_flag TestFlags_Nb Flags_default TestFlag_A True = Inr (Flags_list [TestFlag_A])"
  "set_flag TestFlags_Nb (Flags_list [TestFlag_A]) TestFlag_C True
     = Inr (Flags_list [TestFlag_A, TestFlag_C])"
  "set_flag TestFlags_Nb (Flags_list [TestFlag_A, TestFlag_C]) TestFlag_B True
     = Inr (Flags_list [TestFlag_A, TestFlag_B, TestFlag_C])"
  "set_flag TestFlags_Nb (Flags_list [TestFlag_A, TestFlag_B, TestFlag_C]) TestFlag_A False
     = Inr (Flags_list [TestFlag_B, TestFlag_C])"
  "reset TestFlags_Nb (Flags_list [TestFlag_A, TestFlag_B, TestFlag_C]) TestFlag_B
     = Inr (Flags_list [TestFlag_A, TestFlag_C])"
  "reset_all (Flags_list [TestFlag_A, TestFlag_C]) = Flags_default"
  "\<not> operator_bool (reset_all (Flags_list [TestFlag_A, TestFlag_C]))"
  by (simp_all add: TestFlags_simps set_flag_def operator_or_eq_E_def operator_compl_eq
      operator_and_eq_def reset_eq reset_all_def)

lemma t_flags_test_operators:
  "operator_eq (operator_bitor (Flags_list [TestFlag_A]) (Flags_list [TestFlag_B]))
     (Flags_list [TestFlag_A, TestFlag_B])"
  "operator_eq (operator_bitor_FE (Flags_list [TestFlag_A]) TestFlag_B)
     (Flags_list [TestFlag_A, TestFlag_B])"
  "operator_eq (operator_bitor_EF TestFlag_A (Flags_list [TestFlag_B]))
     (Flags_list [TestFlag_A, TestFlag_B])"
  "operator_eq (operator_bitand (Flags_list [TestFlag_A, TestFlag_B]) (Flags_list [TestFlag_B]))
     (Flags_list [TestFlag_B])"
  "operator_eq (operator_xor (Flags_list [TestFlag_A, TestFlag_B])
     (Flags_list [TestFlag_A, TestFlag_C])) (Flags_list [TestFlag_B, TestFlag_C])"
  "operator_eq (operator_xor_EF TestFlag_B (Flags_list [TestFlag_A, TestFlag_B]))
     (Flags_list [TestFlag_A])"
  "operator_compl TestFlags_Nb (Flags_list [TestFlag_A, TestFlag_B]) = Inr (Flags_list [TestFlag_C])"
  "\<not> operator_bool (operator_bitand (Flags_list [TestFlag_C]) (Flags_list [TestFlag_A]))"
  "operator_bool (operator_bitand (Flags_list [TestFlag_C]) (Flags_list [TestFlag_C]))"
  "operator_compl TestFlags_Nb (Flags_list [TestFlag_A, TestFlag_B, TestFlag_C]) = Inr Flags_default"
  "operator_not_eq (Flags_list [TestFlag_A, TestFlag_B]) (Flags_list [TestFlag_B, TestFlag_C])"
  "\<not> operator_not_eq (Flags_list [TestFlag_A, TestFlag_B]) (Flags_list [TestFlag_A, TestFlag_B])"
  by (simp_all add: TestFlags_simps operator_bitor_def operator_bitor_FE_def
      operator_bitor_EF_def operator_bitand_def operator_xor_def operator_xor_EF_def
      operator_compl_eq)

text \<open>
  C3. Where the complement returns (\<open>Nb \<le> 64\<close>, which holds whenever \<open>Nb\<close> is at
  most the width of the underlying integer, as the data model has it), its result has
  no bit at a position \<open>\<ge> Nb\<close> and its stored integer is below \<open>2 ^ Nb\<close>; so is the
  complement of the default-constructed empty set; and the union, the intersection
  and the symmetric difference of two sets whose stored integers are below \<open>2 ^ Nb\<close>
  are below \<open>2 ^ Nb\<close> again, as is the complement of any set.
\<close>

theorem complement_masked_and_closed:
  assumes "Nb \<le> 64"
  shows "(\<exists>r. operator_compl Nb (a :: 'a::len word Flags) = Inr r
           \<and> (\<forall>i\<ge>Nb. \<not> bit (toUnderlyingType r) i)
           \<and> unat (toUnderlyingType r) < 2 ^ Nb)
      \<and> (\<exists>r. operator_compl Nb (Flags_default :: 'a word Flags) = Inr r
           \<and> unat (toUnderlyingType r) < 2 ^ Nb)
      \<and> (unat (toUnderlyingType a) < 2 ^ Nb \<and> unat (toUnderlyingType b) < 2 ^ Nb \<longrightarrow>
           unat (toUnderlyingType (operator_bitor a b)) < 2 ^ Nb
         \<and> unat (toUnderlyingType (operator_bitand a b)) < 2 ^ Nb
         \<and> unat (toUnderlyingType (operator_xor a b)) < 2 ^ Nb)"
proof -
  have compl: "\<exists>r. operator_compl Nb x = Inr r
           \<and> (\<forall>i\<ge>Nb. \<not> bit (toUnderlyingType r) i)
           \<and> unat (toUnderlyingType r) < 2 ^ Nb" for x :: "'a word Flags"
    using assms
    by (simp add: operator_compl_eq toUnderlyingType_def unat_less_exp_iff_bits
        bit_and_iff bit_mask_iff)
  have bin: "unat (toUnderlyingType (operator_bitor a b)) < 2 ^ Nb
         \<and> unat (toUnderlyingType (operator_bitand a b)) < 2 ^ Nb
         \<and> unat (toUnderlyingType (operator_xor a b)) < 2 ^ Nb"
    if "unat (toUnderlyingType a) < 2 ^ Nb" "unat (toUnderlyingType b) < 2 ^ Nb"
    using that
    by (simp add: unat_less_exp_iff_bits toUnderlyingType_def operator_bitor_def
        operator_bitand_def operator_xor_def Flags_underlying_def
        bit_or_iff bit_and_iff bit_xor_iff)
  from compl [of a] compl [of Flags_default] bin show ?thesis
    by blast
qed

theorem complement_masked_and_closed_witness:
  "TestFlags_Nb \<le> 64
   \<and> operator_compl TestFlags_Nb (Flags_list [TestFlag_A, TestFlag_B]) = Inr (Flags_flag TestFlag_C)
   \<and> operator_compl TestFlags_Nb (Flags_default :: 32 word Flags) = Inr (fromUnderlyingType 7)
   \<and> unat (toUnderlyingType (Flags_list [TestFlag_A, TestFlag_B])) < 2 ^ TestFlags_Nb
   \<and> unat (toUnderlyingType (Flags_flag TestFlag_C)) < 2 ^ TestFlags_Nb
   \<and> unat (toUnderlyingType (operator_xor (Flags_list [TestFlag_A, TestFlag_B])
                                            (Flags_flag TestFlag_C))) < 2 ^ TestFlags_Nb"
  using complement_masked_and_closed
    [of TestFlags_Nb "Flags_list [TestFlag_A, TestFlag_B]" "Flags_flag TestFlag_C"]
  by (simp add: TestFlags_Nb_def operator_compl_eq Flags_list_def Flags_flag_def
      Flags_default_def fromUnderlyingType_def Flags_underlying_def toUnderlyingType_def
      TestFlag_values mask_3)

text \<open>
  C4, as stated, fails for the involution: with \<open>Nb = 3\<close> the set
  \<^verbatim>\<open>TestFlags::fromUnderlyingType(8u)\<close> has the complement 7, whose complement is
  the empty set and not the set itself.
\<close>

theorem double_complement_counterexample:
  "operator_compl TestFlags_Nb (fromUnderlyingType (8 :: 32 word)) = Inr (fromUnderlyingType 7)
   \<and> operator_compl TestFlags_Nb (fromUnderlyingType (7 :: 32 word)) = Inr (fromUnderlyingType 0)
   \<and> \<not> operator_eq (fromUnderlyingType 0) (fromUnderlyingType (8 :: 32 word))"
  by (simp add: TestFlags_Nb_def operator_compl_eq fromUnderlyingType_def Flags_underlying_def
      operator_eq_def mask_3)

text \<open>
  C4, amended. Union and intersection commute, \<open>a ^ a\<close> is the empty set, and where
  the complement returns (\<open>Nb \<le> 64\<close>) the complement of the complement of \<open>a\<close> is
  \<open>a\<close> with the bits at positions \<open>\<ge> Nb\<close> cleared: it equals \<open>a\<close> for every \<open>a\<close>
  whose stored integer is below \<open>2 ^ Nb\<close>, and for every \<open>a\<close> when \<open>Nb\<close> is at least
  the width of the underlying integer (the default \<open>Nb\<close> is that width).
\<close>

theorem flags_algebra:
  "operator_eq (operator_bitor a b) (operator_bitor b a)
   \<and> operator_eq (operator_bitand a b) (operator_bitand b a)
   \<and> \<not> operator_bool (operator_xor a a)
   \<and> operator_eq (operator_xor a a) Flags_default
   \<and> (Nb \<le> 64 \<longrightarrow>
        (\<exists>c d. operator_compl Nb (a :: 'a::len word Flags) = Inr c \<and> operator_compl Nb c = Inr d
          \<and> toUnderlyingType d = toUnderlyingType a AND mask Nb
          \<and> (unat (toUnderlyingType a) < 2 ^ Nb \<longrightarrow> operator_eq d a)
          \<and> (LENGTH('a) \<le> Nb \<longrightarrow> operator_eq d a)))"
proof -
  have comm_or: "operator_eq (operator_bitor a b) (operator_bitor b a)"
    by (simp add: operator_eq_def operator_bitor_def Flags_underlying_def or.commute)
  have comm_and: "operator_eq (operator_bitand a b) (operator_bitand b a)"
    by (simp add: operator_eq_def operator_bitand_def Flags_underlying_def and.commute)
  have xor_self: "\<not> operator_bool (operator_xor a a)"
    "operator_eq (operator_xor a a) Flags_default"
    by (simp_all add: operator_bool_def operator_eq_def operator_xor_def Flags_underlying_def
        Flags_default_def)
  have twice: "NOT (NOT (mFlags a) AND mask Nb) AND mask Nb = mFlags a AND mask Nb"
    by (rule bit_eqI) (auto simp: bit_and_iff bit_not_iff bit_mask_iff bit_or_iff)
  have "\<exists>c d. operator_compl Nb a = Inr c \<and> operator_compl Nb c = Inr d
          \<and> toUnderlyingType d = toUnderlyingType a AND mask Nb
          \<and> (unat (toUnderlyingType a) < 2 ^ Nb \<longrightarrow> operator_eq d a)
          \<and> (LENGTH('a) \<le> Nb \<longrightarrow> operator_eq d a)" if "Nb \<le> 64"
    using that twice
    by (simp add: operator_compl_eq toUnderlyingType_def operator_eq_def
        unat_less_exp_iff_mask mask_full_width)
  with comm_or comm_and xor_self show ?thesis
    by blast
qed

theorem flags_algebra_witness:
  "TestFlags_Nb \<le> 64
   \<and> unat (toUnderlyingType (Flags_list [TestFlag_A, TestFlag_B])) < 2 ^ TestFlags_Nb
   \<and> operator_compl TestFlags_Nb (Flags_list [TestFlag_A, TestFlag_B]) = Inr (Flags_flag TestFlag_C)
   \<and> operator_compl TestFlags_Nb (Flags_flag TestFlag_C) = Inr (Flags_list [TestFlag_A, TestFlag_B])
   \<and> operator_eq (operator_bitor (Flags_list [TestFlag_A, TestFlag_B]) (Flags_flag TestFlag_C))
                  (operator_bitor (Flags_flag TestFlag_C) (Flags_list [TestFlag_A, TestFlag_B]))
   \<and> LENGTH(32) \<le> DeletionFlags_Nb
   \<and> operator_compl DeletionFlags_Nb (Flags_flag DeletionFlag_Force)
        = Inr (fromUnderlyingType (NOT 2))
   \<and> operator_compl DeletionFlags_Nb (fromUnderlyingType (NOT 2))
        = Inr (Flags_flag DeletionFlag_Force)"
  using flags_algebra
    [of "Flags_list [TestFlag_A, TestFlag_B]" "Flags_flag TestFlag_C" TestFlags_Nb]
  by (simp add: TestFlags_Nb_def DeletionFlags_Nb_def DeletionFlag_Force_def
      operator_compl_eq Flags_list_def Flags_flag_def
      fromUnderlyingType_def Flags_underlying_def toUnderlyingType_def operator_eq_def
      operator_bitor_def TestFlag_values mask_3 mask_full_width)

text \<open>
  C5, as stated, fails after \<^verbatim>\<open>reset(e)\<close> for an enumeration value whose underlying
  value is 0: resetting it on the empty set leaves the empty set, on which it tests
  true.
\<close>

theorem test_after_reset_counterexample:
  "reset TestFlags_Nb (Flags_default :: 32 word Flags) (Enum 0) = Inr Flags_default
   \<and> test (Flags_default :: 32 word Flags) (Enum 0)"
  by (simp add: TestFlags_Nb_def reset_eq Flags_default_def test_def)

text \<open>
  C5, amended. \<^verbatim>\<open>a.test(e)\<close> is true right after \<^verbatim>\<open>a.set(e)\<close>; right after
  \<^verbatim>\<open>a.reset(e)\<close> (which returns when \<open>Nb \<le> 64\<close>) it is false for every \<open>e\<close> whose
  underlying value is not 0; and \<^verbatim>\<open>test(e)\<close> is true exactly when every bit of the
  underlying value of \<open>e\<close> is set in the stored integer.
\<close>

theorem test_after_set_and_reset:
  "(\<exists>a'. set_flag Nb a e True = Inr a' \<and> test a' e)
   \<and> (Nb \<le> 64 \<and> toUnderlying e \<noteq> 0 \<longrightarrow> (\<exists>a'. reset Nb a e = Inr a' \<and> \<not> test a' e))
   \<and> (test a e \<longleftrightarrow> (\<forall>i. bit (toUnderlying e) i \<longrightarrow> bit (toUnderlyingType a) i))"
proof -
  have after_set: "\<exists>a'. set_flag Nb a e True = Inr a' \<and> test a' e"
    by (simp add: set_flag_def operator_or_eq_E_def test_def)
  have after_reset: "\<exists>a'. reset Nb a e = Inr a' \<and> \<not> test a' e"
    if "Nb \<le> 64" "toUnderlying e \<noteq> 0"
  proof -
    let ?a' = "a\<lparr>mFlags := mFlags a AND (NOT (toUnderlying e) AND mask Nb)\<rparr>"
    have "reset Nb a e = Inr ?a'"
      using that by (simp add: reset_eq)
    moreover have "mFlags ?a' AND toUnderlying e = 0"
      by (rule bit_eqI) (simp add: bit_and_iff bit_not_iff)
    with that have "\<not> test ?a' e"
      unfolding test_def by metis
    ultimately show ?thesis
      by blast
  qed
  from after_set after_reset test_bits [of a e] show ?thesis
    by (simp add: toUnderlyingType_def)
qed

theorem test_after_set_and_reset_witness:
  "TestFlags_Nb \<le> 64 \<and> toUnderlying TestFlag_B \<noteq> 0
   \<and> set_flag TestFlags_Nb (Flags_flag TestFlag_A) TestFlag_B True
        = Inr (Flags_list [TestFlag_A, TestFlag_B])
   \<and> test (Flags_list [TestFlag_A, TestFlag_B]) TestFlag_B
   \<and> reset TestFlags_Nb (Flags_list [TestFlag_A, TestFlag_B]) TestFlag_B
        = Inr (Flags_flag TestFlag_A)
   \<and> \<not> test (Flags_flag TestFlag_A) TestFlag_B"
  using test_after_set_and_reset [of TestFlags_Nb "Flags_flag TestFlag_A" TestFlag_B]
    test_after_set_and_reset [of TestFlags_Nb "Flags_list [TestFlag_A, TestFlag_B]" TestFlag_B]
  by (simp add: TestFlags_Nb_def set_flag_def operator_or_eq_E_def reset_eq
      Flags_list_def Flags_flag_def test_def TestFlag_values mask_3)

text \<open>
  C9. An enumeration value whose underlying value is 0 tests true on every flag set,
  the default-constructed empty one included: \<^verbatim>\<open>(mFlags & 0) == 0\<close>.
\<close>

theorem test_zero_flag:
  "toUnderlying e = 0 \<Longrightarrow> test a e \<and> test Flags_default e"
  by (simp add: test_def)

theorem test_zero_flag_witness:
  "toUnderlying (Enum (0 :: 32 word)) = 0
     \<and> test (fromUnderlyingType 5) (Enum (0 :: 32 word))
     \<and> test Flags_default (Enum (0 :: 32 word))"
  using test_zero_flag [of "Enum (0 :: 32 word)" "fromUnderlyingType 5"] by simp

text \<open>
  C10. Where they return (\<open>Nb \<le> 64\<close>), \<^verbatim>\<open>reset(e)\<close> and \<^verbatim>\<open>set(e, false)\<close>
  store the old integer with the bits of \<open>e\<close> and every bit at a position \<open>\<ge> Nb\<close>
  cleared. \<^verbatim>\<open>fromUnderlyingType\<close> stores its argument as it is, and the binary
  operators apply no mask: every bit of their result, at the positions \<open>\<ge> Nb\<close> too, is
  the plain combination of the operands' bits, so a bit of an operand survives the
  union with any set, the intersection with a set that has it, and the symmetric
  difference with a set that lacks it.
\<close>

theorem reset_clears_high_bits:
  assumes "Nb \<le> 64"
  shows "(\<exists>a'. reset Nb a e = Inr a' \<and> set_flag Nb a e False = Inr a'
            \<and> toUnderlyingType a' = toUnderlyingType a AND NOT (toUnderlying e) AND mask Nb
            \<and> (\<forall>i\<ge>Nb. \<not> bit (toUnderlyingType a') i))
      \<and> toUnderlyingType (fromUnderlyingType v) = v
      \<and> toUnderlyingType (operator_bitor a b) = toUnderlyingType a OR toUnderlyingType b
      \<and> toUnderlyingType (operator_bitand a b) = toUnderlyingType a AND toUnderlyingType b
      \<and> toUnderlyingType (operator_xor a b) = toUnderlyingType a XOR toUnderlyingType b
      \<and> (\<forall>i. bit (toUnderlyingType a) i \<longrightarrow>
             bit (toUnderlyingType (operator_bitor a b)) i
           \<and> (bit (toUnderlyingType b) i \<longrightarrow> bit (toUnderlyingType (operator_bitand a b)) i)
           \<and> (\<not> bit (toUnderlyingType b) i \<longrightarrow> bit (toUnderlyingType (operator_xor a b)) i))"
  using assms
  by (simp add: reset_eq set_flag_False toUnderlyingType_def fromUnderlyingType_def
      Flags_underlying_def operator_bitor_def operator_bitand_def operator_xor_def
      bit_and_iff bit_mask_iff bit_or_iff bit_xor_iff and.assoc)

theorem reset_clears_high_bits_witness:
  "TestFlags_Nb \<le> 64
   \<and> reset TestFlags_Nb (fromUnderlyingType (30 :: 32 word)) TestFlag_B = Inr (fromUnderlyingType 4)
   \<and> set_flag TestFlags_Nb (fromUnderlyingType (30 :: 32 word)) TestFlag_B False
        = Inr (fromUnderlyingType 4)
   \<and> toUnderlyingType (fromUnderlyingType (30 :: 32 word)) = 30
   \<and> toUnderlyingType (operator_bitor (fromUnderlyingType (24 :: 32 word)) (Flags_flag TestFlag_B)) = 26
   \<and> toUnderlyingType (operator_xor (fromUnderlyingType (24 :: 32 word)) (Flags_flag TestFlag_B)) = 26
   \<and> toUnderlyingType (operator_bitand (fromUnderlyingType (24 :: 32 word)) (fromUnderlyingType 31)) = 24"
  using reset_clears_high_bits [of TestFlags_Nb "fromUnderlyingType (30 :: 32 word)" TestFlag_B 30
      "Flags_flag TestFlag_B"]
  by (simp add: TestFlags_Nb_def reset_eq set_flag_False fromUnderlyingType_def
      Flags_underlying_def toUnderlyingType_def Flags_flag_def operator_bitor_def
      operator_xor_def operator_bitand_def TestFlag_values mask_3)

section \<open>Properties of Error\<close>

lemma sint_small:
  assumes "uint w < 2 ^ 31"
  shows "sint (w :: 32 word) = uint w"
proof -
  have "- (2 ^ 31) \<le> uint w"
    by (rule order_trans [of _ 0]) simp_all
  then have "signed_take_bit 31 (uint w) = uint w"
    using assms by (rule signed_take_bit_int_eq_self)
  then show ?thesis
    by (simp add: sint_uint)
qed

lemma code_mask: "GPG_ERR_CODE_MASK = mask 16"
  by (simp add: GPG_ERR_CODE_MASK_def mask_eq_exp_minus_1)

lemma source_mask: "GPG_ERR_SOURCE_MASK = mask 7"
  by (simp add: GPG_ERR_SOURCE_MASK_def mask_eq_exp_minus_1)

lemma code_eq: "code e = uint (mErr e AND mask 16)"
proof -
  have "uint (mErr e AND mask 16) < 2 ^ 16"
    by (rule and_mask_lt_2p)
  then have "uint (mErr e AND mask 16) < 2 ^ 31"
    by simp
  then show ?thesis
    by (simp add: code_def gpgme_err_code_def code_mask sint_small)
qed

lemma sourceID_eq: "sourceID e = uint (drop_bit 24 (mErr e) AND mask 7)"
proof -
  have "uint (drop_bit 24 (mErr e) AND mask 7) < 2 ^ 7"
    by (rule and_mask_lt_2p)
  then have "uint (drop_bit 24 (mErr e) AND mask 7) < 2 ^ 31"
    by simp
  then show ?thesis
    by (simp add: sourceID_def gpgme_err_source_def source_mask GPG_ERR_SOURCE_SHIFT_def
        sint_small)
qed

lemma uint_less_mask:
  assumes "uint (w :: 'a::len word) < 2 ^ n"
  shows "w AND mask n = w"
proof -
  have "take_bit n (uint w) = uint w"
    using assms by (simp add: take_bit_int_eq_self)
  then have "uint (take_bit n w) = uint w"
    by (simp add: unsigned_take_bit_eq)
  then have "take_bit n w = w"
    by (simp add: word_uint_eq_iff)
  then show ?thesis
    by (simp add: take_bit_eq_mask)
qed

lemma make_code:
  "(push_bit 24 (src AND mask 7) OR (err AND mask 16)) AND mask 16 = err AND (mask 16 :: 32 word)"
  by (rule bit_eqI) (auto simp: bit_simps)

lemma make_source:
  "drop_bit 24 (push_bit 24 (src AND mask 7) OR (err AND mask 16)) AND mask 7
     = src AND (mask 7 :: 32 word)"
  by (rule bit_eqI) (auto simp: bit_simps)

lemma mErr_fromCode:
  "mErr (fromCode err src) =
     (if err = 0 then 0 else push_bit 24 (src AND mask 7) OR (err AND mask 16))"
  by (simp add: fromCode_def Error_ctor_def gpgme_err_make_def GPG_ERR_NO_ERROR_def
      GPG_ERR_SOURCE_SHIFT_def code_mask source_mask)

lemma code_fromCode: "code (fromCode err src) = uint (err AND mask 16)"
  by (cases "err = 0") (simp_all only: code_eq mErr_fromCode make_code if_True if_False, simp)

lemma sourceID_fromCode:
  "sourceID (fromCode err src) = (if err = 0 then 0 else uint (src AND mask 7))"
  by (cases "err = 0")
    (simp_all only: sourceID_eq mErr_fromCode make_source if_True if_False, simp)

lemma mask_16: "(mask 16 :: 32 word) = 65535"
  by (simp add: mask_eq_exp_minus_1)

lemma mask_7: "(mask 7 :: 32 word) = 127"
  by (simp add: mask_eq_exp_minus_1)

text \<open>
  C1. Every error value, whatever its encoded integer, is in exactly one of the three
  classes: at least one of \<^verbatim>\<open>isSuccess\<close>, \<^verbatim>\<open>isCanceled\<close>, \<^verbatim>\<open>isError\<close> holds,
  and no two of them hold together.
\<close>

theorem classification_exclusive_and_total:
  "(isSuccess e \<or> isCanceled e \<or> isError e)
   \<and> \<not> (isSuccess e \<and> isCanceled e)
   \<and> \<not> (isSuccess e \<and> isError e)
   \<and> \<not> (isCanceled e \<and> isError e)"
  by (auto simp: isError_def isSuccess_def isCanceled_def GPG_ERR_NO_ERROR_def
      GPG_ERR_CANCELED_def GPG_ERR_FULLY_CANCELED_def)

theorem classification_exclusive_and_total_witness:
  "isSuccess (Error_ctor 0) \<and> \<not> isCanceled (Error_ctor 0) \<and> \<not> isError (Error_ctor 0)
   \<and> isCanceled (Error_ctor 99) \<and> \<not> isSuccess (Error_ctor 99) \<and> \<not> isError (Error_ctor 99)
   \<and> isError (Error_ctor 117440513) \<and> \<not> isSuccess (Error_ctor 117440513)
   \<and> \<not> isCanceled (Error_ctor 117440513)"
  using classification_exclusive_and_total [of "Error_ctor 0"]
    classification_exclusive_and_total [of "Error_ctor 99"]
    classification_exclusive_and_total [of "Error_ctor 117440513"]
  by (simp add: isError_def isSuccess_def isCanceled_def code_eq Error_ctor_def mask_16
      GPG_ERR_NO_ERROR_def GPG_ERR_CANCELED_def GPG_ERR_FULLY_CANCELED_def)

text \<open>
  C2, as stated, fails for the code 0 with a source other than 0: the collaborator's
  \<^verbatim>\<open>gpg_err_make\<close> gives the plain success value 0 for the code "no error",
  whatever the source, and the source of that value is 0.
\<close>

theorem fromCode_no_error_counterexample:
  "sourceID (fromCode 0 1) = 0 \<and> sourceID (fromCode 0 1) \<noteq> uint (1 :: 32 word)"
  by (simp add: sourceID_fromCode)

text \<open>
  C2, amended. For every code from 1 to 65535 and every source from 0 to 127,
  \<^verbatim>\<open>fromCode(code, source)\<close> has that code and that source. For the code 0 it is
  the success value, with code 0 and source 0.
\<close>

theorem fromCode_round_trip:
  "(err \<noteq> 0 \<and> uint err < 65536 \<and> uint src < 128 \<longrightarrow>
       code (fromCode err src) = uint err \<and> sourceID (fromCode err src) = uint src)
   \<and> code (fromCode 0 src) = 0 \<and> sourceID (fromCode 0 src) = 0"
proof -
  have "code (fromCode err src) = uint err \<and> sourceID (fromCode err src) = uint src"
    if "err \<noteq> 0" "uint err < 65536" "uint src < 128"
  proof -
    from that have "err AND mask 16 = err" and "src AND mask 7 = src"
      by (simp_all add: uint_less_mask)
    with that(1) show ?thesis
      by (simp add: code_fromCode sourceID_fromCode)
  qed
  moreover have "code (fromCode 0 src) = 0 \<and> sourceID (fromCode 0 src) = 0"
    by (simp add: code_fromCode sourceID_fromCode)
  ultimately show ?thesis
    by blast
qed

theorem fromCode_round_trip_witness:
  "(99 :: 32 word) \<noteq> 0 \<and> uint (99 :: 32 word) < 65536 \<and> uint (7 :: 32 word) < 128
   \<and> code (fromCode 99 7) = 99 \<and> sourceID (fromCode 99 7) = 7
   \<and> mErr (fromCode 99 7) = 117440611"
  using fromCode_round_trip [of 99 7]
  by (simp add: mErr_fromCode mask_16 mask_7)

text \<open>
  C7. \<^verbatim>\<open>isCanceled()\<close> is true exactly when the code is one of the two reserved
  values, 99 ("operation canceled") and 198 ("fully canceled"): in terms of
  \<^verbatim>\<open>code()\<close>, in terms of the low 16 bits of the encoded integer, and for the value
  \<^verbatim>\<open>fromCode\<close> makes of any code below 65536 and any source.
\<close>

theorem isCanceled_exactly_reserved:
  "(isCanceled e \<longleftrightarrow> code e = 99 \<or> code e = 198)
   \<and> (isCanceled e \<longleftrightarrow> mErr e AND 65535 = 99 \<or> mErr e AND 65535 = 198)
   \<and> (uint c < 65536 \<longrightarrow> (isCanceled (fromCode c src) \<longleftrightarrow> c = 99 \<or> c = 198))"
proof -
  have a: "isCanceled e \<longleftrightarrow> code e = 99 \<or> code e = 198" for e
    by (simp add: isCanceled_def GPG_ERR_CANCELED_def GPG_ERR_FULLY_CANCELED_def)
  have b: "code e = uint k \<longleftrightarrow> mErr e AND 65535 = k" for e k
    by (simp add: code_eq mask_16 word_uint_eq_iff)
  have "code e = 99 \<longleftrightarrow> mErr e AND 65535 = 99" "code e = 198 \<longleftrightarrow> mErr e AND 65535 = 198"
    for e
    using b [of e 99] b [of e 198] by simp_all
  note b' = this
  have d: "isCanceled (fromCode c src) \<longleftrightarrow> c = 99 \<or> c = 198" if "uint c < 65536"
  proof -
    from that have "c AND mask 16 = c"
      by (simp add: uint_less_mask)
    then have "code (fromCode c src) = uint c"
      by (simp add: code_fromCode)
    moreover have "uint c = 99 \<longleftrightarrow> c = 99" "uint c = 198 \<longleftrightarrow> c = 198"
      by (simp_all add: word_uint_eq_iff)
    ultimately show ?thesis
      by (simp add: a)
  qed
  from a b' d show ?thesis
    by blast
qed

theorem isCanceled_exactly_reserved_witness:
  "uint (198 :: 32 word) < 65536
   \<and> isCanceled (fromCode 198 7) \<and> isCanceled (fromCode 99 7)
   \<and> \<not> isCanceled (fromCode 0 7) \<and> \<not> isCanceled (fromCode 1 7)
   \<and> \<not> isCanceled (fromCode 199 7)"
  using isCanceled_exactly_reserved [of "fromCode 198 7" 198 7]
    isCanceled_exactly_reserved [of "fromCode 99 7" 99 7]
    isCanceled_exactly_reserved [of "fromCode 0 7" 0 7]
    isCanceled_exactly_reserved [of "fromCode 1 7" 1 7]
    isCanceled_exactly_reserved [of "fromCode 199 7" 199 7]
  by (simp add: code_fromCode mask_16)

section \<open>Properties of split_into_string_views\<close>

lemma strlen_c_str: "strlen s = length (c_str s)"
  by (induction s) (simp_all add: c_str_def)

lemma take_strlen: "take (strlen s) s = c_str s"
  by (induction s) (simp_all add: c_str_def)

lemma strchr_None:
  "d \<noteq> NUL \<Longrightarrow> strchr s d = None \<Longrightarrow> d \<notin> set (c_str s)"
  by (induction s) (auto simp: c_str_def split: if_splits)

lemma strchr_Some:
  "d \<noteq> NUL \<Longrightarrow> strchr s d = Some k \<Longrightarrow>
     k < length s \<and> d \<notin> set (take k s) \<and> c_str s = take k s @ d # c_str (drop (Suc k) s)"
proof (induction s arbitrary: k)
  case Nil
  then show ?case by simp
next
  case (Cons c cs)
  show ?case
  proof (cases "c = d")
    case True
    with Cons.prems show ?thesis
      by (simp add: c_str_def)
  next
    case False
    with Cons.prems obtain k' where k': "strchr cs d = Some k'" "k = Suc k'" "c \<noteq> NUL"
      by (auto split: if_splits)
    from Cons.IH [OF Cons.prems(1) k'(1)] k' False show ?thesis
      by (simp add: c_str_def)
  qed
qed

lemma strlen_zero_iff: "strlen s = 0 \<longleftrightarrow> c_str s = []"
  by (simp add: strlen_c_str)

lemma segments_no_delimiter: "d \<notin> set xs \<Longrightarrow> segments d xs = [xs]"
  by (induction xs) auto

lemma segments_append:
  "d \<notin> set xs \<Longrightarrow> segments d (xs @ d # ys) = xs # segments d ys"
  by (induction xs) auto

lemma split_loop_spec:
  "delimiter \<noteq> NUL \<Longrightarrow>
     split_loop s delimiter result
       = Inr (result @ filter (\<lambda>seg. seg \<noteq> []) (segments delimiter (c_str s)))"
proof (induction s delimiter result rule: split_loop.induct)
  case (1 s delimiter result)
  show ?case
  proof (cases "strchr s delimiter")
    case None
    with "1.prems" have "segments delimiter (c_str s) = [c_str s]"
      by (simp add: strchr_None segments_no_delimiter)
    with None show ?thesis
      by (simp add: split_loop.simps [of s] take_strlen strlen_zero_iff)
  next
    case (Some k)
    from strchr_Some [OF "1.prems" Some]
    have k: "k < length s" and nd: "delimiter \<notin> set (take k s)"
      and cs: "c_str s = take k s @ delimiter # c_str (drop (Suc k) s)"
      by simp_all
    have seg: "segments delimiter (c_str s)
                 = take k s # segments delimiter (c_str (drop (Suc k) s))"
      by (subst cs) (rule segments_append [OF nd])
    let ?result' = "if k \<noteq> 0 then result @ [take k s] else result"
    have "split_loop s delimiter result = split_loop (drop (Suc k) s) delimiter ?result'"
      using Some k by (simp add: split_loop.simps [of s])
    also have "\<dots> = Inr (?result' @ filter (\<lambda>seg. seg \<noteq> [])
                        (segments delimiter (c_str (drop (Suc k) s))))"
      using "1.IH" [OF Some refl k "1.prems"] by simp
    also have "\<dots> = Inr (result @ filter (\<lambda>seg. seg \<noteq> []) (segments delimiter (c_str s)))"
      using k by (auto simp: seg)
    finally show ?thesis .
  qed
qed

lemma strchr_NUL: "strchr s NUL = Some (strlen s)"
  by (induction s) simp_all

lemma strlen_le: "strlen s \<le> length s"
  by (induction s) simp_all

lemma split_loop_NUL: "split_loop s NUL result = Inl read_past_the_array"
proof (induction s NUL result rule: split_loop.induct)
  case (1 s result)
  show ?case
  proof (cases "strlen s < length s")
    case True
    then show ?thesis
      using "1.hyps" [OF strchr_NUL refl True]
      by (simp add: split_loop.simps [of s] strchr_NUL)
  next
    case False
    then show ?thesis
      by (simp add: split_loop.simps [of s] strchr_NUL)
  qed
qed



lemma segments_nonempty: "segments d s \<noteq> []"
  by (cases s) (auto split: list.splits)

lemma segments_snoc:
  "d \<notin> set t \<Longrightarrow> segments d (p @ d # t) = segments d p @ [t]"
proof (induction p)
  case Nil
  then show ?case
    by (simp add: segments_no_delimiter)
next
  case (Cons c cs)
  then show ?case
    using segments_nonempty [of d cs] by (cases "segments d cs") auto
qed

lemma c_str_id: "NUL \<notin> set s \<Longrightarrow> c_str s = s"
  by (auto simp: c_str_def takeWhile_eq_all_conv)

lemma split_Some:
  "delimiter \<noteq> NUL \<Longrightarrow>
     split_into_string_views (Some s) delimiter = Inr (spec_split (Some s) delimiter)"
  by (simp add: split_into_string_views_def spec_split_def split_loop_spec)

lemma split_no_empty_view:
  assumes "split_into_string_views str delimiter = Inr views"
  shows "[] \<notin> set views"
proof (cases str)
  case None
  with assms show ?thesis
    by (auto simp: split_into_string_views_def)
next
  case (Some s)
  show ?thesis
  proof (cases "delimiter = NUL")
    case True
    with Some assms show ?thesis
      by (simp add: split_into_string_views_def split_loop_NUL)
  next
    case False
    with Some assms show ?thesis
      by (auto simp: split_Some spec_split_def)
  qed
qed

lemma split_final_segment:
  assumes "delimiter \<noteq> NUL" "delimiter \<notin> set t" "NUL \<notin> set p" "NUL \<notin> set t"
  shows "split_into_string_views (Some (p @ delimiter # t)) delimiter
           = Inr (spec_split (Some p) delimiter @ (if t = [] then [] else [t]))"
proof -
  from assms have "NUL \<notin> set (p @ delimiter # t)"
    by auto
  then have "c_str (p @ delimiter # t) = p @ delimiter # t"
    by (rule c_str_id)
  with assms show ?thesis
    by (simp add: split_Some spec_split_def c_str_id segments_snoc)
qed

lemma split_no_delimiter:
  assumes "delimiter \<noteq> NUL" "delimiter \<notin> set t" "NUL \<notin> set t"
  shows "split_into_string_views (Some t) delimiter = Inr (if t = [] then [] else [t])"
  using assms by (simp add: split_Some spec_split_def c_str_id segments_no_delimiter)

lemma split_NUL_delimiter:
  "split_into_string_views (Some s) NUL = Inl read_past_the_array"
  by (simp add: split_into_string_views_def split_loop_NUL)

lemma split_examples:
  "split_into_string_views None CHR '','' = Inr []"
  "split_into_string_views (Some []) CHR '','' = Inr []"
  "split_into_string_views (Some '','') CHR '','' = Inr []"
  "split_into_string_views (Some ''abc'') CHR '','' = Inr [''abc'']"
  "split_into_string_views (Some ''abc,def'') CHR '','' = Inr [''abc'', ''def'']"
  "split_into_string_views (Some '',abc'') CHR '','' = Inr [''abc'']"
  "split_into_string_views (Some ''abc,'') CHR '','' = Inr [''abc'']"
  "split_into_string_views (Some ''abc,,def'') CHR '','' = Inr [''abc'', ''def'']"
  by (simp_all add: split_into_string_views_def split_loop.simps NUL_def)

text \<open>
  C6, as stated, fails for the delimiter NUL, which the signature admits: there
  \<^verbatim>\<open>strchr\<close> finds the terminator of the text, the pointer is moved past the
  array and the call reads outside it instead of returning a sequence, while the
  wording of the specification gives the one segment \<open>abc\<close> for the text \<open>abc\<close>.
\<close>

theorem split_NUL_delimiter_counterexample:
  "split_into_string_views (Some ''abc'') NUL = Inl read_past_the_array
   \<and> spec_split (Some ''abc'') NUL = [''abc'']"
proof -
  have "split_into_string_views (Some ''abc'') NUL = Inl read_past_the_array"
    by (rule split_NUL_delimiter)
  moreover have "spec_split (Some ''abc'') NUL = [''abc'']"
    by (simp add: spec_split_def c_str_def NUL_def)
  ultimately show ?thesis
    by simp
qed

text \<open>
  C6, amended. The null text gives the empty sequence, for every delimiter. For a
  delimiter other than NUL the function returns, and what it returns is the sequence
  the specification words: the segments of the text between the occurrences of the
  delimiter, scanned left to right, with every zero-length segment left out. Whatever
  it returns, for any delimiter, holds no empty view. For a delimiter other than NUL
  the text after the last delimiter is the last view exactly when it is not empty, and
  a text with no delimiter at all is the one view when it is not empty. The eight
  cases the specification lists come out as listed.
\<close>

theorem split_into_string_views_spec:
  "split_into_string_views None delimiter = Inr []
   \<and> (delimiter \<noteq> NUL \<longrightarrow>
        split_into_string_views (Some s) delimiter = Inr (spec_split (Some s) delimiter))
   \<and> (\<forall>views. split_into_string_views str delimiter = Inr views \<longrightarrow> [] \<notin> set views)
   \<and> (delimiter \<noteq> NUL \<and> delimiter \<notin> set t \<and> NUL \<notin> set p \<and> NUL \<notin> set t \<longrightarrow>
        (\<exists>views. split_into_string_views (Some p) delimiter = Inr views
           \<and> split_into_string_views (Some (p @ delimiter # t)) delimiter
               = Inr (views @ (if t = [] then [] else [t]))))
   \<and> (delimiter \<noteq> NUL \<and> delimiter \<notin> set t \<and> NUL \<notin> set t \<longrightarrow>
        split_into_string_views (Some t) delimiter = Inr (if t = [] then [] else [t]))
   \<and> split_into_string_views None CHR '','' = Inr []
   \<and> split_into_string_views (Some []) CHR '','' = Inr []
   \<and> split_into_string_views (Some '','') CHR '','' = Inr []
   \<and> split_into_string_views (Some ''abc'') CHR '','' = Inr [''abc'']
   \<and> split_into_string_views (Some ''abc,def'') CHR '','' = Inr [''abc'', ''def'']
   \<and> split_into_string_views (Some '',abc'') CHR '','' = Inr [''abc'']
   \<and> split_into_string_views (Some ''abc,'') CHR '','' = Inr [''abc'']
   \<and> split_into_string_views (Some ''abc,,def'') CHR '','' = Inr [''abc'', ''def'']"
proof -
  have null: "split_into_string_views None delimiter = Inr []"
    by (simp add: split_into_string_views_def)
  have final: "\<exists>views. split_into_string_views (Some p) delimiter = Inr views
           \<and> split_into_string_views (Some (p @ delimiter # t)) delimiter
               = Inr (views @ (if t = [] then [] else [t]))"
    if "delimiter \<noteq> NUL" "delimiter \<notin> set t" "NUL \<notin> set p" "NUL \<notin> set t"
    using that split_Some [of delimiter p] split_final_segment [of delimiter t p] by blast
  from null split_Some [of delimiter s] split_no_empty_view [of str delimiter] final
    split_no_delimiter [of delimiter t] split_examples
  show ?thesis
    by blast
qed

theorem split_into_string_views_spec_witness:
  "CHR '';'' \<noteq> NUL \<and> CHR '';'' \<notin> set ''gpg'' \<and> NUL \<notin> set '';a;;b'' \<and> NUL \<notin> set ''gpg''
   \<and> split_into_string_views (Some '';a;;b'') CHR '';'' = Inr [''a'', ''b'']
   \<and> split_into_string_views (Some '';a;;b;gpg'') CHR '';'' = Inr [''a'', ''b'', ''gpg'']
   \<and> split_into_string_views (Some ''gpg'') CHR '';'' = Inr [''gpg'']
   \<and> [] \<notin> set [''a'', ''b'', ''gpg'']"
  using split_into_string_views_spec
    [of "CHR '';''" "'';a;;b''" "Some '';a;;b;gpg''" "''gpg''" "'';a;;b''"]
  by (simp add: split_into_string_views_def split_loop.simps NUL_def)

section \<open>Properties of the message rendering\<close>

lemma c_str_NUL_free: "NUL \<notin> set (c_str buf)"
  unfolding c_str_def by (auto dest: set_takeWhileD)

lemma c_str_eq_take:
  assumes "n < length buf" "buf ! n = NUL" "\<And>i. i < n \<Longrightarrow> buf ! i \<noteq> NUL"
  shows "c_str buf = take n buf"
  unfolding c_str_def using assms by (intro takeWhile_eq_take_P_nth) simp_all

lemma length_gpgme_strerror_r:
  "length buf = N \<Longrightarrow> length (gpgme_strerror_r descr err buf N) = N"
  by (auto simp: gpgme_strerror_r_def Let_def min_def)

lemma nth_gpgme_strerror_r:
  assumes "length buf = N" "i < N"
  shows "gpgme_strerror_r descr err buf N ! i =
           (if i = N - 1 then NUL
            else if i < length (c_str (descr err)) then c_str (descr err) ! i
            else if i = length (c_str (descr err)) then NUL
            else buf ! i)"
  using assms
  by (auto simp: gpgme_strerror_r_def Let_def nth_list_update nth_append min_def)

lemma rendered_text:
  assumes "length buf = N" "0 < N"
  shows "c_str ((gpgme_strerror_r descr err buf N)[N - 1 := NUL]) = take (N - 1) (c_str (descr err))"
proof -
  let ?t = "c_str (descr err)"
  let ?R = "(gpgme_strerror_r descr err buf N)[N - 1 := NUL]"
  let ?n = "min (length ?t) (N - 1)"
  have len: "length ?R = N"
    using assms by (simp add: length_gpgme_strerror_r)
  have nth: "?R ! i = (if i = N - 1 then NUL
            else if i < length ?t then ?t ! i
            else if i = length ?t then NUL
            else buf ! i)" if "i < N" for i
    using that assms by (simp add: nth_list_update length_gpgme_strerror_r nth_gpgme_strerror_r)
  have n: "?n < N"
    using assms by simp
  have "?R ! ?n = NUL"
    using nth [OF n] by (auto simp: min_def)
  moreover have "?R ! i \<noteq> NUL" if "i < ?n" for i
  proof -
    from that have "?t ! i \<in> set ?t"
      by simp
    with c_str_NUL_free [of "descr err"] have "?t ! i \<noteq> NUL"
      by metis
    moreover from that n have "i < N" "i \<noteq> N - 1" "i < length ?t"
      by auto
    ultimately show ?thesis
      using nth [of i] by simp
  qed
  ultimately have "c_str ?R = take ?n ?R"
    using n len by (intro c_str_eq_take) simp_all
  also have "\<dots> = take ?n ?t"
  proof (rule nth_equalityI)
    show "length (take ?n ?R) = length (take ?n ?t)"
      using n len by simp
    show "take ?n ?R ! i = take ?n ?t ! i" if "i < length (take ?n ?R)" for i
    proof -
      from that n len have "i < N" "i \<noteq> N - 1" "i < length ?t" "i < ?n"
        by auto
      then show ?thesis
        using nth [of i] by simp
    qed
  qed
  also have "\<dots> = take (N - 1) ?t"
    by (simp add: min_def)
  finally show ?thesis .
qed



lemma c_str_bounded:
  assumes "n < length buf" "buf ! n = NUL"
  shows "length (c_str buf) \<le> n"
proof (rule ccontr)
  assume "\<not> length (c_str buf) \<le> n"
  then have n: "n < length (takeWhile (\<lambda>c. c \<noteq> NUL) buf)"
    by (simp add: c_str_def)
  then have "takeWhile (\<lambda>c. c \<noteq> NUL) buf ! n = buf ! n"
    by (rule takeWhile_nth)
  moreover from n have "takeWhile (\<lambda>c. c \<noteq> NUL) buf ! n \<in> set (takeWhile (\<lambda>c. c \<noteq> NUL) buf)"
    by (rule nth_mem)
  then have "takeWhile (\<lambda>c. c \<noteq> NUL) buf ! n \<noteq> NUL"
    by (auto dest: set_takeWhileD)
  ultimately show False
    using assms(2) by simp
qed

lemma length_uninitialised: "length (uninitialised stack) = buffer_size"
  by (simp add: uninitialised_def)

lemma buffer_size_pos: "0 < buffer_size"
  by (simp add: buffer_size_def)

lemma length_format_error_buffer:
  assumes "\<forall>buf. length (strerror_r err buf (length buf)) = length buf"
  shows "length (format_error_buffer strerror_r stack err) = buffer_size"
  using assms [rule_format, of "uninitialised stack"]
  by (simp add: format_error_buffer_def Let_def length_uninitialised)

lemma last_format_error_buffer:
  assumes "\<forall>buf. length (strerror_r err buf (length buf)) = length buf"
  shows "format_error_buffer strerror_r stack err ! (buffer_size - 1) = NUL"
  using assms [rule_format, of "uninitialised stack"] buffer_size_pos
  by (simp add: format_error_buffer_def Let_def length_uninitialised)

lemma length_format_error:
  assumes "\<forall>buf. length (strerror_r err buf (length buf)) = length buf"
  shows "length (format_error strerror_r stack err) \<le> buffer_size - 1"
  unfolding format_error_def
proof (rule c_str_bounded)
  show "buffer_size - 1 < length (format_error_buffer strerror_r stack err)"
    using assms buffer_size_pos length_format_error_buffer [of strerror_r err stack]
    by simp
  show "format_error_buffer strerror_r stack err ! (buffer_size - 1) = NUL"
    using assms last_format_error_buffer [of strerror_r err stack] by simp
qed

lemma format_error_eq:
  "format_error (gpgme_strerror_r descr) stack err = take (buffer_size - 1) (c_str (descr err))"
  unfolding format_error_def format_error_buffer_def Let_def
  by (rule rendered_text [OF length_uninitialised buffer_size_pos])

lemma asString_fresh:
  "mMessage this = [] \<Longrightarrow>
     fst (asString (gpgme_strerror_r descr) stack this)
       = take (buffer_size - 1) (c_str (descr (mErr this)))"
  by (simp add: asString_def Let_def format_error_eq)

lemma asString_again:
  "asString (gpgme_strerror_r descr) stack' (snd (asString (gpgme_strerror_r descr) stack this))
     = asString (gpgme_strerror_r descr) stack this"
  by (simp add: asString_def Let_def format_error_eq)

lemma asString_memo:
  "fst (asString strerror_r stack this) \<noteq> [] \<Longrightarrow>
     asString strerror_r stack' (snd (asString strerror_r stack this))
       = asString strerror_r stack this"
  by (simp add: asString_def Let_def split: if_splits)

text \<open>
  C8. Whatever the collaborator's \<^verbatim>\<open>gpgme_strerror_r\<close> writes inside the array it
  is given, the array that \<^verbatim>\<open>format_error\<close> reads the message from is 1024 bytes
  long, its last byte is NUL, and the message is at most 1023 bytes long and holds no
  NUL. With the collaborator rendering as the specification says, the message is the
  description cut to its first 1023 bytes, whatever the array held before.
  \<^verbatim>\<open>asString\<close> on a freshly constructed value returns that message and stores
  it in the object; a second \<^verbatim>\<open>asString\<close> returns the same text and leaves the
  object as the first left it (for any collaborator, once the stored message is not
  empty, \<^verbatim>\<open>asString\<close> returns the stored message and changes nothing); the
  encoded value is never changed. \<^verbatim>\<open>asStdString\<close> is the rendering of the encoded
  value, whatever message the object stores: with the collaborator rendering as the
  specification says it is the description cut to its first 1023 bytes, on a freshly
  constructed value and on any other, before \<^verbatim>\<open>asString\<close> and after it.
\<close>

theorem message_bounded_and_idempotent:
  "((\<forall>buf. length (strerror_r err buf (length buf)) = length buf) \<longrightarrow>
        length (format_error_buffer strerror_r stack err) = 1024
      \<and> format_error_buffer strerror_r stack err ! 1023 = NUL
      \<and> length (format_error strerror_r stack err) \<le> 1023
      \<and> NUL \<notin> set (format_error strerror_r stack err))
   \<and> (\<forall>buf. length (gpgme_strerror_r descr err buf (length buf)) = length buf)
   \<and> format_error (gpgme_strerror_r descr) stack err = take 1023 (c_str (descr err))
   \<and> fst (asString (gpgme_strerror_r descr) stack (Error_ctor err)) = take 1023 (c_str (descr err))
   \<and> asString (gpgme_strerror_r descr) stack' (snd (asString (gpgme_strerror_r descr) stack this))
        = asString (gpgme_strerror_r descr) stack this
   \<and> (fst (asString strerror_r stack this) \<noteq> [] \<longrightarrow>
        asString strerror_r stack' (snd (asString strerror_r stack this))
          = asString strerror_r stack this)
   \<and> mErr (snd (asString strerror_r stack this)) = mErr this
   \<and> asStdString (gpgme_strerror_r descr) stack'
          (snd (asString (gpgme_strerror_r descr) stack (Error_ctor err)))
        = fst (asString (gpgme_strerror_r descr) stack (Error_ctor err))
   \<and> asStdString (gpgme_strerror_r descr) stack' this
        = asStdString (gpgme_strerror_r descr) stack this
   \<and> asStdString strerror_r stack this = format_error strerror_r stack (mErr this)
   \<and> asStdString (gpgme_strerror_r descr) stack this = take 1023 (c_str (descr (mErr this)))
   \<and> asStdString (gpgme_strerror_r descr) stack (Error_ctor err) = take 1023 (c_str (descr err))
   \<and> snd (asString (gpgme_strerror_r descr) stack (Error_ctor err))
        = \<lparr>mErr = err, mMessage = take 1023 (c_str (descr err))\<rparr>
   \<and> (mMessage this \<noteq> [] \<longrightarrow> asString strerror_r stack this = (mMessage this, this))"
proof -
  have size: "buffer_size = 1024" "buffer_size - 1 = 1023"
    by (simp_all add: buffer_size_def)
  have buffer: "length (format_error_buffer strerror_r stack err) = 1024
      \<and> format_error_buffer strerror_r stack err ! 1023 = NUL
      \<and> length (format_error strerror_r stack err) \<le> 1023
      \<and> NUL \<notin> set (format_error strerror_r stack err)"
    if "\<forall>buf. length (strerror_r err buf (length buf)) = length buf"
    using that length_format_error_buffer [of strerror_r err stack]
      last_format_error_buffer [of strerror_r err stack]
      length_format_error [of strerror_r err stack]
      c_str_NUL_free [of "format_error_buffer strerror_r stack err"]
    by (simp add: size format_error_def)
  have inside: "\<forall>buf. length (gpgme_strerror_r descr err buf (length buf)) = length buf"
    by (simp add: length_gpgme_strerror_r)
  have text_eq: "format_error (gpgme_strerror_r descr) s e = take 1023 (c_str (descr e))" for s e
    using format_error_eq [of descr s e] by (simp add: size)
  have fresh: "fst (asString (gpgme_strerror_r descr) stack (Error_ctor err))
                 = take 1023 (c_str (descr err))"
    using asString_fresh [of "Error_ctor err" descr stack]
    by (simp add: Error_ctor_def size)
  have unchanged: "mErr (snd (asString strerror_r stack this)) = mErr this"
    by (simp add: asString_def Let_def)
  have std: "asStdString (gpgme_strerror_r descr) stack'
          (snd (asString (gpgme_strerror_r descr) stack (Error_ctor err)))
        = fst (asString (gpgme_strerror_r descr) stack (Error_ctor err))"
    "asStdString (gpgme_strerror_r descr) stack' this
        = asStdString (gpgme_strerror_r descr) stack this"
    by (simp_all add: asStdString_def asString_def Let_def text_eq Error_ctor_def)
  have std_eq: "asStdString strerror_r stack this = format_error strerror_r stack (mErr this)"
    "asStdString (gpgme_strerror_r descr) stack this = take 1023 (c_str (descr (mErr this)))"
    "asStdString (gpgme_strerror_r descr) stack (Error_ctor err) = take 1023 (c_str (descr err))"
    by (simp_all add: asStdString_def text_eq Error_ctor_def)
  have stored: "snd (asString (gpgme_strerror_r descr) stack (Error_ctor err))
        = \<lparr>mErr = err, mMessage = take 1023 (c_str (descr err))\<rparr>"
    by (simp add: asString_def Let_def text_eq Error_ctor_def)
  have kept: "asString strerror_r stack this = (mMessage this, this)" if "mMessage this \<noteq> []"
    using that by (simp add: asString_def Let_def)
  from buffer inside text_eq [of stack err] fresh
    asString_again [of descr stack' stack this]
    asString_memo [of strerror_r stack this stack'] unchanged std std_eq stored kept
  show ?thesis
    by blast
qed

theorem message_bounded_and_idempotent_witness:
  "(\<forall>buf. length (gpgme_strerror_r (\<lambda>err. replicate 2000 CHR ''x'') 5 buf (length buf))
            = length buf)
   \<and> length (format_error_buffer (gpgme_strerror_r (\<lambda>err. replicate 2000 CHR ''x''))
               (\<lambda>i. CHR ''?'') 5) = 1024
   \<and> fst (asString (gpgme_strerror_r (\<lambda>err. replicate 2000 CHR ''x'')) (\<lambda>i. CHR ''?'')
            (Error_ctor 5)) = replicate 1023 CHR ''x''
   \<and> fst (asString (gpgme_strerror_r (\<lambda>err. replicate 2000 CHR ''x'')) (\<lambda>i. CHR ''!'')
            (snd (asString (gpgme_strerror_r (\<lambda>err. replicate 2000 CHR ''x'')) (\<lambda>i. CHR ''?'')
            (Error_ctor 5)))) = replicate 1023 CHR ''x''
   \<and> asStdString (gpgme_strerror_r (\<lambda>err. replicate 2000 CHR ''x'')) (\<lambda>i. CHR ''?'')
        (Error_ctor 5) = replicate 1023 CHR ''x''
   \<and> mMessage (Error_ctor 5\<lparr>mMessage := ''stored''\<rparr>) \<noteq> []
   \<and> asString (gpgme_strerror_r (\<lambda>err. replicate 2000 CHR ''x'')) (\<lambda>i. CHR ''?'')
        (Error_ctor 5\<lparr>mMessage := ''stored''\<rparr>)
        = (''stored'', Error_ctor 5\<lparr>mMessage := ''stored''\<rparr>)
   \<and> asStdString (gpgme_strerror_r (\<lambda>err. replicate 2000 CHR ''x'')) (\<lambda>i. CHR ''?'')
        (Error_ctor 5\<lparr>mMessage := ''stored''\<rparr>) = replicate 1023 CHR ''x''"
proof -
  let ?descr = "\<lambda>err :: gpgme_error_t. replicate 2000 CHR ''x''"
  let ?r = "gpgme_strerror_r ?descr"
  let ?stored = "Error_ctor 5\<lparr>mMessage := ''stored''\<rparr>"
  have cut: "take 1023 (c_str (replicate 2000 CHR ''x'')) = replicate 1023 CHR ''x''"
    by (simp add: c_str_def NUL_def)
  have msg: "mMessage ?stored = ''stored''"
    by (simp add: Error_ctor_def)
  then have ne: "mMessage ?stored \<noteq> []"
    by simp
  note fresh = message_bounded_and_idempotent
    [of ?r 5 "\<lambda>i. CHR ''?''" ?descr "\<lambda>i. CHR ''!''" "Error_ctor 5"]
  note stored = message_bounded_and_idempotent
    [of ?r 5 "\<lambda>i. CHR ''?''" ?descr "\<lambda>i. CHR ''!''" ?stored]
  have inside: "\<forall>buf. length (?r 5 buf (length buf)) = length buf"
    by (rule fresh [THEN conjunct2, THEN conjunct1])
  have size: "length (format_error_buffer ?r (\<lambda>i. CHR ''?'') 5) = 1024"
    by (rule mp [OF fresh [THEN conjunct1] inside, THEN conjunct1])
  have first: "fst (asString ?r (\<lambda>i. CHR ''?'') (Error_ctor 5)) = replicate 1023 CHR ''x''"
    using fresh [THEN conjunct2, THEN conjunct2, THEN conjunct2, THEN conjunct1]
    by (simp only: cut)
  have again: "asString ?r (\<lambda>i. CHR ''!'') (snd (asString ?r (\<lambda>i. CHR ''?'') (Error_ctor 5)))
                 = asString ?r (\<lambda>i. CHR ''?'') (Error_ctor 5)"
    by (rule fresh [THEN conjunct2, THEN conjunct2, THEN conjunct2, THEN conjunct2, THEN conjunct1])
  have second: "fst (asString ?r (\<lambda>i. CHR ''!'')
                       (snd (asString ?r (\<lambda>i. CHR ''?'') (Error_ctor 5))))
                  = replicate 1023 CHR ''x''"
    by (simp only: again first)
  have std_fresh: "asStdString ?r (\<lambda>i. CHR ''?'') (Error_ctor 5) = replicate 1023 CHR ''x''"
    using fresh [THEN conjunct2, THEN conjunct2, THEN conjunct2, THEN conjunct2, THEN conjunct2, THEN conjunct2, THEN conjunct2, THEN conjunct2, THEN conjunct2, THEN conjunct2, THEN conjunct2, THEN conjunct1]
    by (simp only: cut)
  have kept: "asString ?r (\<lambda>i. CHR ''?'') ?stored = (''stored'', ?stored)"
    using mp [OF stored [THEN conjunct2, THEN conjunct2, THEN conjunct2, THEN conjunct2, THEN conjunct2, THEN conjunct2, THEN conjunct2, THEN conjunct2, THEN conjunct2, THEN conjunct2, THEN conjunct2, THEN conjunct2, THEN conjunct2] ne]
    by (simp only: msg)
  have std_stored: "asStdString ?r (\<lambda>i. CHR ''?'') ?stored = replicate 1023 CHR ''x''"
    using stored [THEN conjunct2, THEN conjunct2, THEN conjunct2, THEN conjunct2, THEN conjunct2, THEN conjunct2, THEN conjunct2, THEN conjunct2, THEN conjunct2, THEN conjunct2, THEN conjunct1]
    by (simp only: cut)
  show ?thesis
    by (intro conjI inside size first second std_fresh ne kept std_stored)
qed

end
